theory Spec2Isabelle
  imports Complex_Main "HOL-Library.Word"
begin

section \<open>Data model of the blueprint viewer\<close>

text \<open>
  The model follows \<^verbatim>\<open>src/components/BlueprintViewer.tsx\<close> and
  \<^verbatim>\<open>src/app/api/blueprints/[id]/markup/route.ts\<close>. JavaScript numbers are modelled as
  real numbers, the history index (an integer that starts at -1) as \<open>int\<close>, and a
  JavaScript string whose characters matter (\<^verbatim>\<open>trim\<close>) as the list of its UTF-16 code
  units. An optional field of an object is an \<open>option\<close>: \<open>None\<close> is \<^verbatim>\<open>undefined\<close>.
\<close>

type_synonym jsstring = "16 word list"

text \<open>\<^verbatim>\<open>interface Point { x: number; y: number }\<close>; the fields are named \<open>px\<close>, \<open>py\<close>.\<close>

record Point =
  px :: real
  py :: real

datatype Tool = Pen | Rectangle | Circle | Text

text \<open>
  \<^verbatim>\<open>interface DrawingElement\<close>. The id is the template string of \<^verbatim>\<open>Date.now()\<close> and
  \<^verbatim>\<open>Math.random()\<close>; it is kept as the pair of the two numbers.
\<close>

record DrawingElement =
  el_id :: "int \<times> real"
  el_type :: Tool
  points :: "Point list option"
  startX :: "real option"
  startY :: "real option"
  endX :: "real option"
  endY :: "real option"
  el_text :: "jsstring option"
  color :: string
  el_strokeWidth :: real
  timestamp :: int

text \<open>
  What the array \<^verbatim>\<open>elements\<close> holds at run time. The elements the component builds are
  drawing elements, but the load effect stores the entries of the parsed array as they
  are, so an entry can also be \<^verbatim>\<open>null\<close> or a boolean, a number or a string. An entry
  that is an object is taken to have the fields of a drawing element.
\<close>

datatype entry =
    Element DrawingElement
  | NullEntry
  | BooleanEntry bool
  | NumberEntry real
  | StringEntry jsstring

text \<open>
  The component's state: one field for each \<^verbatim>\<open>useState\<close> cell. \<open>errorLog\<close> collects the
  messages written with \<^verbatim>\<open>console.error\<close>.
\<close>

record viewer =
  isDrawing :: bool
  currentTool :: Tool
  currentColor :: string
  strokeWidth :: real
  zoom :: real
  pan :: Point
  elements :: "entry list"
  history :: "entry list list"
  historyIndex :: int
  showSaveDialog :: bool
  markupName :: jsstring
  currentElement :: "DrawingElement option"
  textInput :: jsstring
  showTextInput :: bool
  textPosition :: Point
  errorLog :: "string list"

definition initialViewer :: viewer where
  "initialViewer =
     \<lparr> isDrawing = False, currentTool = Pen, currentColor = ''#238636'', strokeWidth = 3,
       zoom = 1, pan = \<lparr> px = 0, py = 0 \<rparr>, elements = [], history = [],
       historyIndex = - 1, showSaveDialog = False, markupName = [],
       currentElement = None, textInput = [], showTextInput = False,
       textPosition = \<lparr> px = 0, py = 0 \<rparr>, errorLog = [] \<rparr>"

section \<open>JavaScript array primitives\<close>

text \<open>
  \<^verbatim>\<open>xs.slice(0, end)\<close>: a negative \<open>end\<close> counts from the end of the array, and the
  result is clamped to the array.
\<close>

definition slice0 :: "'a list \<Rightarrow> int \<Rightarrow> 'a list" where
  "slice0 xs e =
     (let n = int (length xs);
          k = (if e < 0 then max (n + e) 0 else min e n)
      in take (nat k) xs)"

text \<open>\<^verbatim>\<open>xs[i]\<close>: reading outside the array gives \<^verbatim>\<open>undefined\<close>.\<close>

definition at_index :: "'a list \<Rightarrow> int \<Rightarrow> 'a option" where
  "at_index xs i = (if 0 \<le> i \<and> i < int (length xs) then Some (xs ! nat i) else None)"

section \<open>Loading the initial markups\<close>

text \<open>
  \<^verbatim>\<open>JSON.parse\<close> is a function of the platform; its outcome on the stored text is the
  input of the model. It either throws a \<^verbatim>\<open>SyntaxError\<close> or returns a JSON value. The
  effect checks nothing but \<^verbatim>\<open>Array.isArray\<close>, so the entries of an array are kept as
  they come.
\<close>

datatype json_value =
    JsonNull
  | JsonBoolean bool
  | JsonNumber real
  | JsonString jsstring
  | JsonObject "(jsstring \<times> json_value) list"
  | JsonArray "entry list"

datatype parse_outcome = Throws | Returns json_value

fun Array_isArray :: "json_value \<Rightarrow> bool" where
  "Array_isArray (JsonArray _) = True"
| "Array_isArray _ = False"

text \<open>The effect that runs when the component mounts and when \<^verbatim>\<open>initialMarkups\<close> changes.\<close>

fun loadInitialMarkups :: "parse_outcome \<Rightarrow> viewer \<Rightarrow> viewer" where
  "loadInitialMarkups Throws s =
     s\<lparr> errorLog := errorLog s @ [''Error parsing initial markups:''] \<rparr>"
| "loadInitialMarkups (Returns (JsonArray markups)) s =
     s\<lparr> elements := markups, history := [markups], historyIndex := 0 \<rparr>"
| "loadInitialMarkups (Returns _) s = s"

section \<open>Commit, undo, redo, clear\<close>

definition handlePointerEnd :: "viewer \<Rightarrow> viewer" where
  "handlePointerEnd s =
     (case currentElement s of
        None \<Rightarrow> s
      | Some ce \<Rightarrow>
          if \<not> isDrawing s then s
          else
            let newElements = elements s @ [Element ce];
                newHistory = slice0 (history s) (historyIndex s + 1) @ [newElements]
            in s\<lparr> isDrawing := False, elements := newElements, history := newHistory,
                  historyIndex := int (length newHistory) - 1, currentElement := None \<rparr>)"

definition undo :: "viewer \<Rightarrow> viewer" where
  "undo s =
     (if historyIndex s > 0 then
        (case at_index (history s) (historyIndex s - 1) of
           Some previousState \<Rightarrow>
             s\<lparr> historyIndex := historyIndex s - 1, elements := previousState \<rparr>
         | None \<Rightarrow> s\<lparr> historyIndex := historyIndex s - 1 \<rparr>)
      else s)"

definition redo :: "viewer \<Rightarrow> viewer" where
  "redo s =
     (if historyIndex s < int (length (history s)) - 1 then
        (case at_index (history s) (historyIndex s + 1) of
           Some nextState \<Rightarrow>
             s\<lparr> historyIndex := historyIndex s + 1, elements := nextState \<rparr>
         | None \<Rightarrow> s\<lparr> historyIndex := historyIndex s + 1 \<rparr>)
      else s)"

definition clearAll :: "viewer \<Rightarrow> viewer" where
  "clearAll s =
     (let newHistory = slice0 (history s) (historyIndex s + 1) @ [[]]
      in s\<lparr> elements := [], history := newHistory,
            historyIndex := int (length newHistory) - 1 \<rparr>)"

section \<open>Pointer interaction\<close>

text \<open>
  \<^verbatim>\<open>getCanvasPoint\<close>: the canvas may not be mounted (\<open>None\<close>), then the point is the
  origin; otherwise the pair holds \<^verbatim>\<open>rect.left\<close> and \<^verbatim>\<open>rect.top\<close> of its bounding client rectangle.
\<close>

definition getCanvasPoint :: "(real \<times> real) option \<Rightarrow> viewer \<Rightarrow> real \<Rightarrow> real \<Rightarrow> Point" where
  "getCanvasPoint canvas s clientX clientY =
     (case canvas of
        None \<Rightarrow> \<lparr> px = 0, py = 0 \<rparr>
      | Some (rect_left, rect_top) \<Rightarrow>
          \<lparr> px = (clientX - rect_left - px (pan s) * zoom s) / zoom s,
            py = (clientY - rect_top - py (pan s) * zoom s) / zoom s \<rparr>)"

text \<open>
  The clock and the random generator are inputs: \<open>idNow\<close> and \<open>rnd\<close> make the id,
  \<open>tsNow\<close> is the second reading of the clock for the timestamp.
\<close>

definition handlePointerStart ::
    "(real \<times> real) option \<Rightarrow> int \<Rightarrow> real \<Rightarrow> int \<Rightarrow> real \<Rightarrow> real \<Rightarrow> viewer \<Rightarrow> viewer" where
  "handlePointerStart canvas idNow rnd tsNow clientX clientY s =
     (if currentTool s = Text then
        s\<lparr> textPosition := getCanvasPoint canvas s clientX clientY, showTextInput := True \<rparr>
      else
        let point = getCanvasPoint canvas s clientX clientY;
            newElement =
              \<lparr> el_id = (idNow, rnd), el_type = currentTool s, points = None,
                startX = None, startY = None, endX = None, endY = None, el_text = None,
                color = currentColor s, el_strokeWidth = strokeWidth s, timestamp = tsNow \<rparr>;
            seeded =
              (if currentTool s = Pen then newElement\<lparr> points := Some [point] \<rparr>
               else newElement\<lparr> startX := Some (px point), startY := Some (py point),
                                 endX := Some (px point), endY := Some (py point) \<rparr>)
        in s\<lparr> isDrawing := True, currentElement := Some seeded \<rparr>)"

definition handlePointerMove :: "(real \<times> real) option \<Rightarrow> real \<Rightarrow> real \<Rightarrow> viewer \<Rightarrow> viewer" where
  "handlePointerMove canvas clientX clientY s =
     (case currentElement s of
        None \<Rightarrow> s
      | Some prev \<Rightarrow>
          if \<not> isDrawing s then s
          else
            let point = getCanvasPoint canvas s clientX clientY
            in if currentTool s = Pen then
                 s\<lparr> currentElement :=
                      Some (prev\<lparr> points :=
                        Some ((case points prev of None \<Rightarrow> [] | Some ps \<Rightarrow> ps) @ [point]) \<rparr>) \<rparr>
               else
                 s\<lparr> currentElement :=
                      Some (prev\<lparr> endX := Some (px point), endY := Some (py point) \<rparr>) \<rparr>)"

section \<open>Text labels\<close>

text \<open>
  \<^verbatim>\<open>String.prototype.trim\<close> removes the white space and line terminator code units of
  ECMAScript from both ends of the string.
\<close>

definition isWhiteSpace :: "16 word \<Rightarrow> bool" where
  "isWhiteSpace c =
     (c \<in> set [0x0009, 0x000A, 0x000B, 0x000C, 0x000D, 0x0020, 0x00A0, 0x1680,
                0x2000, 0x2001, 0x2002, 0x2003, 0x2004, 0x2005, 0x2006, 0x2007,
                0x2008, 0x2009, 0x200A, 0x2028, 0x2029, 0x202F, 0x205F, 0x3000, 0xFEFF])"

definition trim :: "jsstring \<Rightarrow> jsstring" where
  "trim t = rev (dropWhile isWhiteSpace (rev (dropWhile isWhiteSpace t)))"

text \<open>\<^verbatim>\<open>!str\<close> is true for the empty string only.\<close>

definition handleAddText :: "int \<Rightarrow> real \<Rightarrow> int \<Rightarrow> viewer \<Rightarrow> viewer" where
  "handleAddText idNow rnd tsNow s =
     (if trim (textInput s) = [] then s\<lparr> showTextInput := False \<rparr>
      else
        let textElement =
              \<lparr> el_id = (idNow, rnd), el_type = Text, points = None,
                startX = Some (px (textPosition s)), startY = Some (py (textPosition s)),
                endX = None, endY = None, el_text = Some (textInput s),
                color = currentColor s, el_strokeWidth = strokeWidth s, timestamp = tsNow \<rparr>;
            newElements = elements s @ [Element textElement];
            newHistory = slice0 (history s) (historyIndex s + 1) @ [newElements]
        in s\<lparr> elements := newElements, history := newHistory,
              historyIndex := int (length newHistory) - 1,
              textInput := [], showTextInput := False \<rparr>)"

text \<open>The Escape key and the Cancel button of the text overlay.\<close>

definition cancelText :: "viewer \<Rightarrow> viewer" where
  "cancelText s = s\<lparr> showTextInput := False, textInput := [] \<rparr>"

section \<open>Viewport controls\<close>

definition zoomOut :: "viewer \<Rightarrow> viewer" where
  "zoomOut s = s\<lparr> zoom := max (1 / 10) (zoom s - 1 / 10) \<rparr>"

definition zoomIn :: "viewer \<Rightarrow> viewer" where
  "zoomIn s = s\<lparr> zoom := min 3 (zoom s + 1 / 10) \<rparr>"

definition resetView :: "viewer \<Rightarrow> viewer" where
  "resetView s = s\<lparr> zoom := 1, pan := \<lparr> px = 0, py = 0 \<rparr> \<rparr>"

section \<open>Renderer\<close>

text \<open>
  The calls that \<^verbatim>\<open>drawElements\<close> makes on the 2D context, in order. The last two are
  the assignments of \<^verbatim>\<open>undefined\<close> to \<^verbatim>\<open>strokeStyle\<close> and \<^verbatim>\<open>lineWidth\<close>, which happen
  for an entry without these fields.
\<close>

datatype canvas_op =
    ClearRect real real real real
  | Save
  | Restore
  | Scale real real
  | Translate real real
  | DrawImage real real real real
  | SetStrokeStyle string
  | SetLineWidth real
  | SetLineCap string
  | SetLineJoin string
  | BeginPath
  | MoveTo real real
  | LineTo real real
  | Stroke
  | StrokeRect real real real real
  | Arc real real real real real
  | SetFillStyle string
  | SetFont real
  | FillText jsstring real real
  | SetStrokeStyleUndefined
  | SetLineWidthUndefined

definition viewportOps :: "viewer \<Rightarrow> canvas_op list" where
  "viewportOps s = [Scale (zoom s) (zoom s), Translate (px (pan s)) (py (pan s))]"

definition drawElement :: "DrawingElement \<Rightarrow> canvas_op list" where
  "drawElement element =
     [SetStrokeStyle (color element), SetLineWidth (el_strokeWidth element),
      SetLineCap ''round'', SetLineJoin ''round''] @
     (case el_type element of
        Pen \<Rightarrow>
          (case points element of
             Some (firstPoint # rest) \<Rightarrow>
               if length (firstPoint # rest) > 1 then
                 [BeginPath, MoveTo (px firstPoint) (py firstPoint)] @
                 map (\<lambda>point. LineTo (px point) (py point)) (firstPoint # rest) @ [Stroke]
               else []
           | _ \<Rightarrow> [])
      | Rectangle \<Rightarrow>
          (case (startX element, startY element, endX element, endY element) of
             (Some sx, Some sy, Some ex, Some ey) \<Rightarrow>
               let width = ex - sx; height = ey - sy
               in [StrokeRect sx sy width height]
           | _ \<Rightarrow> [])
      | Circle \<Rightarrow>
          (case (startX element, startY element, endX element, endY element) of
             (Some sx, Some sy, Some ex, Some ey) \<Rightarrow>
               let radius = sqrt ((ex - sx) ^ 2 + (ey - sy) ^ 2)
               in [BeginPath, Arc sx sy radius 0 (2 * pi), Stroke]
           | _ \<Rightarrow> [])
      | Text \<Rightarrow>
          (case (el_text element, startX element, startY element) of
             (Some t, Some sx, Some sy) \<Rightarrow>
               if t \<noteq> [] then
                 [SetFillStyle (color element), SetFont (el_strokeWidth element * 6),
                  FillText t sx sy]
               else []
           | _ \<Rightarrow> []))"

text \<open>
  The body of the \<^verbatim>\<open>forEach\<close> for one entry of the array. Reading \<^verbatim>\<open>element.color\<close> of
  \<^verbatim>\<open>null\<close> throws a \<^verbatim>\<open>TypeError\<close>. A boolean, a number or a string has none of the
  fields: the two style assignments get \<^verbatim>\<open>undefined\<close> and no case of the switch matches.
\<close>

datatype js_error = TypeError

fun drawEntry :: "entry \<Rightarrow> js_error + canvas_op list" where
  "drawEntry (Element element) = Inr (drawElement element)"
| "drawEntry NullEntry = Inl TypeError"
| "drawEntry _ =
     Inr [SetStrokeStyleUndefined, SetLineWidthUndefined, SetLineCap ''round'',
          SetLineJoin ''round'']"

text \<open>
  \<^verbatim>\<open>elements.forEach\<close>: the calls made so far, and the exception that ended the loop, if
  there was one.
\<close>

fun drawAll :: "entry list \<Rightarrow> canvas_op list \<times> js_error option" where
  "drawAll [] = ([], None)"
| "drawAll (e # es) =
     (case drawEntry e of
        Inl err \<Rightarrow> ([], Some err)
      | Inr ops \<Rightarrow> (case drawAll es of (rest, r) \<Rightarrow> (ops @ rest, r)))"

text \<open>
  \<open>surface\<close> is \<open>None\<close> when the canvas, the image or the context is missing; otherwise it
  holds the width and the height of the canvas. The result is the calls made on the
  context and the exception thrown out of \<^verbatim>\<open>drawElements\<close>, if any; after an exception
  \<^verbatim>\<open>ctx.restore()\<close> is not reached.
\<close>

definition drawElements ::
    "(real \<times> real) option \<Rightarrow> viewer \<Rightarrow> canvas_op list \<times> js_error option" where
  "drawElements surface s =
     (case surface of
        None \<Rightarrow> ([], None)
      | Some (width, height) \<Rightarrow>
          (case drawAll (elements s) of
             (drawn, None) \<Rightarrow>
               ([ClearRect 0 0 width height, Save] @ viewportOps s @
                [DrawImage 0 0 (width / zoom s) (height / zoom s)] @ drawn @ [Restore], None)
           | (drawn, Some err) \<Rightarrow>
               ([ClearRect 0 0 width height, Save] @ viewportOps s @
                [DrawImage 0 0 (width / zoom s) (height / zoom s)] @ drawn, Some err)))"

subsection \<open>What the canvas does with these calls\<close>

text \<open>
  The current transformation matrix of a 2D context without rotation: a user-space
  point \<open>(u, v)\<close> is painted at \<open>(m_sx * u + m_tx, m_sy * v + m_ty)\<close>. \<^verbatim>\<open>scale\<close> and
  \<^verbatim>\<open>translate\<close> multiply the matrix on the right, as the canvas does.
\<close>

record ctm =
  m_sx :: real
  m_sy :: real
  m_tx :: real
  m_ty :: real

definition ctm_identity :: ctm where
  "ctm_identity = \<lparr> m_sx = 1, m_sy = 1, m_tx = 0, m_ty = 0 \<rparr>"

fun ctm_step :: "ctm \<Rightarrow> canvas_op \<Rightarrow> ctm" where
  "ctm_step m (Scale a b) = m\<lparr> m_sx := m_sx m * a, m_sy := m_sy m * b \<rparr>"
| "ctm_step m (Translate a b) =
     m\<lparr> m_tx := m_sx m * a + m_tx m, m_ty := m_sy m * b + m_ty m \<rparr>"
| "ctm_step m _ = m"

definition viewportTransform :: "viewer \<Rightarrow> ctm" where
  "viewportTransform s = foldl ctm_step ctm_identity (viewportOps s)"

text \<open>
  Where a logical point is painted, in client coordinates: the renderer's transform
  gives the position on the canvas, and the canvas sits at \<open>(rect_left, rect_top)\<close>.
\<close>

definition logicalToScreen :: "real \<times> real \<Rightarrow> viewer \<Rightarrow> Point \<Rightarrow> real \<times> real" where
  "logicalToScreen rect s p =
     (let m = viewportTransform s
      in (fst rect + (m_sx m * px p + m_tx m), snd rect + (m_sy m * py p + m_ty m)))"

text \<open>
  \<^verbatim>\<open>strokeRect(x, y, w, h)\<close> strokes the closed path through \<open>(x, y)\<close>, \<open>(x + w, y)\<close>,
  \<open>(x + w, y + h)\<close>, \<open>(x, y + h)\<close>; \<open>w\<close> and \<open>h\<close> may be negative. Its bounding box is
  given as left, top, right, bottom.
\<close>

definition strokeRect_bbox :: "real \<Rightarrow> real \<Rightarrow> real \<Rightarrow> real \<Rightarrow> real \<times> real \<times> real \<times> real" where
  "strokeRect_bbox x0 y0 w h = (min x0 (x0 + w), min y0 (y0 + h), max x0 (x0 + w), max y0 (y0 + h))"

datatype painted = Box "real \<times> real \<times> real \<times> real" | Other canvas_op

fun paint :: "canvas_op \<Rightarrow> painted" where
  "paint (StrokeRect x0 y0 w h) = Box (strokeRect_bbox x0 y0 w h)"
| "paint c = Other c"

text \<open>What drawing one element paints: each rectangle as its box, every other call as it is.\<close>

definition rendered :: "DrawingElement \<Rightarrow> painted list" where
  "rendered element = map paint (drawElement element)"

definition swapCorners :: "DrawingElement \<Rightarrow> DrawingElement" where
  "swapCorners element =
     element\<lparr> startX := endX element, startY := endY element,
              endX := startX element, endY := startY element \<rparr>"

section \<open>Events of the viewer\<close>

datatype event =
    Load parse_outcome
  | PointerStart "(real \<times> real) option" int real int real real
  | PointerMove "(real \<times> real) option" real real
  | PointerEnd
  | SetCurrentTool Tool
  | SetCurrentColor string
  | SetStrokeWidth real
  | SetTextInput jsstring
  | AddText int real int
  | CancelText
  | Undo
  | Redo
  | ClearAll
  | ZoomIn
  | ZoomOut
  | ResetView

fun fire :: "viewer \<Rightarrow> event \<Rightarrow> viewer" where
  "fire s (Load outcome) = loadInitialMarkups outcome s"
| "fire s (PointerStart canvas idNow rnd tsNow cx cy) =
     handlePointerStart canvas idNow rnd tsNow cx cy s"
| "fire s (PointerMove canvas cx cy) = handlePointerMove canvas cx cy s"
| "fire s PointerEnd = handlePointerEnd s"
| "fire s (SetCurrentTool tool) = s\<lparr> currentTool := tool \<rparr>"
| "fire s (SetCurrentColor c) = s\<lparr> currentColor := c \<rparr>"
| "fire s (SetStrokeWidth w) = s\<lparr> strokeWidth := w \<rparr>"
| "fire s (SetTextInput t) = s\<lparr> textInput := t \<rparr>"
| "fire s (AddText idNow rnd tsNow) = handleAddText idNow rnd tsNow s"
| "fire s CancelText = cancelText s"
| "fire s Undo = undo s"
| "fire s Redo = redo s"
| "fire s ClearAll = clearAll s"
| "fire s ZoomIn = zoomIn s"
| "fire s ZoomOut = zoomOut s"
| "fire s ResetView = resetView s"

definition run :: "viewer \<Rightarrow> event list \<Rightarrow> viewer" where
  "run s evs = foldl fire s evs"

text \<open>
  A commit: the pointer is released while the gesture's element \<open>e\<close> is in progress.
\<close>

definition commit :: "viewer \<Rightarrow> DrawingElement \<Rightarrow> viewer" where
  "commit s e = handlePointerEnd (s\<lparr> isDrawing := True, currentElement := Some e \<rparr>)"

text \<open>The state of a viewer opened on stored markup that decodes to the array \<open>m\<close>.\<close>

definition opened :: "entry list \<Rightarrow> viewer" where
  "opened m = loadInitialMarkups (Returns (JsonArray m)) initialViewer"

section \<open>The markup route\<close>

text \<open>
  The store behind \<^verbatim>\<open>prisma\<close>: the rows of the tables \<^verbatim>\<open>blueprint\<close> and
  \<^verbatim>\<open>blueprintMarkup\<close>. The store is taken not to fail, so the handlers' \<^verbatim>\<open>catch\<close>
  branches (status 500) are not reached.
\<close>

record Blueprint =
  bp_id :: string
  bp_markups :: string

record BlueprintMarkup =
  bm_id :: string
  bm_blueprintId :: string
  bm_name :: string
  bm_markupData :: string
  bm_description :: "string option"
  bm_isShared :: bool
  bm_userId :: "string option"
  bm_createdAt :: int
  bm_updatedAt :: int

record database =
  blueprint :: "Blueprint list"
  blueprintMarkup :: "BlueprintMarkup list"

text \<open>A field of the JSON body of a request, before validation.\<close>

datatype jsval = Undefined | StringVal string | BooleanVal bool | OtherVal

record save_body =
  req_name :: jsval
  req_markupData :: jsval
  req_description :: jsval
  req_isShared :: jsval
  req_userId :: jsval

record save_data =
  d_name :: string
  d_markupData :: string
  d_description :: "string option"
  d_isShared :: bool
  d_userId :: "string option"

text \<open>
  The schema combinators of the validation library, each returning the issues it finds
  and the parsed value: \<^verbatim>\<open>z.string().min(1, msg)\<close>, \<^verbatim>\<open>z.string().optional()\<close> and
  \<^verbatim>\<open>z.boolean().default(false)\<close>.
\<close>

definition z_string_min1 :: "string \<Rightarrow> jsval \<Rightarrow> string list \<times> string" where
  "z_string_min1 msg v =
     (case v of
        StringVal t \<Rightarrow> if length t \<ge> 1 then ([], t) else ([msg], t)
      | Undefined \<Rightarrow> ([''Required''], [])
      | _ \<Rightarrow> ([''Expected string''], []))"

definition z_string_optional :: "jsval \<Rightarrow> string list \<times> string option" where
  "z_string_optional v =
     (case v of
        StringVal t \<Rightarrow> ([], Some t)
      | Undefined \<Rightarrow> ([], None)
      | _ \<Rightarrow> ([''Expected string''], None))"

definition z_boolean_default_false :: "jsval \<Rightarrow> string list \<times> bool" where
  "z_boolean_default_false v =
     (case v of
        BooleanVal b \<Rightarrow> ([], b)
      | Undefined \<Rightarrow> ([], False)
      | _ \<Rightarrow> ([''Expected boolean''], False))"

text \<open>\<^verbatim>\<open>MarkupSaveSchema\<close>: the issues of all fields are collected; none means success.\<close>

definition MarkupSaveSchema :: "save_body \<Rightarrow> string list + save_data" where
  "MarkupSaveSchema body =
     (let (i1, name) = z_string_min1 ''Markup name is required'' (req_name body);
          (i2, markupData) = z_string_min1 ''Markup data is required'' (req_markupData body);
          (i3, description) = z_string_optional (req_description body);
          (i4, isShared) = z_boolean_default_false (req_isShared body);
          (i5, userId) = z_string_optional (req_userId body);
          issues = i1 @ i2 @ i3 @ i4 @ i5
      in if issues = [] then
           Inr \<lparr> d_name = name, d_markupData = markupData, d_description = description,
                 d_isShared = isShared, d_userId = userId \<rparr>
         else Inl issues)"

text \<open>
  Modelled from the spec: \<^verbatim>\<open>validateRequest\<close> of \<^verbatim>\<open>lib/api-utils\<close> is not among the
  sources. It checks the body of the request against the schema it is given: a body the
  schema rejects is a validation error (\<^verbatim>\<open>success\<close> false, with the error), any other
  body gives the parsed data.
\<close>

definition validateRequest :: "save_body \<Rightarrow> (save_body \<Rightarrow> string list + save_data) \<Rightarrow> string list + save_data" where
  "validateRequest body schema = schema body"

text \<open>
  The responses built by \<^verbatim>\<open>apiError(error, status)\<close> and \<^verbatim>\<open>apiSuccess(data, message)\<close>.
\<close>

datatype api_error = Message string | ValidationError "string list"

datatype response =
    apiError api_error nat
  | apiSuccess "BlueprintMarkup list" string

text \<open>
  \<^verbatim>\<open>POST /api/blueprints/[id]/markup\<close>. \<open>newId\<close> and \<open>now\<close> are the id and the time the
  store gives to a new row.
\<close>

definition POST :: "string \<Rightarrow> int \<Rightarrow> database \<Rightarrow> string \<Rightarrow> save_body \<Rightarrow> response \<times> database" where
  "POST newId now db blueprintId body =
     (if blueprintId = [] then (apiError (Message ''Blueprint ID is required'') 400, db)
      else
        case find (\<lambda>b. bp_id b = blueprintId) (blueprint db) of
          None \<Rightarrow> (apiError (Message ''Blueprint not found'') 404, db)
        | Some _ \<Rightarrow>
            (case validateRequest body MarkupSaveSchema of
               Inl err \<Rightarrow> (apiError (ValidationError err) 400, db)
             | Inr d \<Rightarrow>
                 let markupSave =
                       \<lparr> bm_id = newId, bm_blueprintId = blueprintId, bm_name = d_name d,
                         bm_markupData = d_markupData d, bm_description = d_description d,
                         bm_isShared = d_isShared d, bm_userId = d_userId d,
                         bm_createdAt = now, bm_updatedAt = now \<rparr>
                 in (apiSuccess [markupSave] ''Markup saved successfully'',
                     db\<lparr> blueprintMarkup := blueprintMarkup db @ [markupSave] \<rparr>)))"

text \<open>\<^verbatim>\<open>GET /api/blueprints/[id]/markup\<close>: the saves of the blueprint, latest update first.\<close>

definition GET :: "database \<Rightarrow> string \<Rightarrow> response" where
  "GET db blueprintId =
     (if blueprintId = [] then apiError (Message ''Blueprint ID is required'') 400
      else
        apiSuccess
          (sort_key (\<lambda>m. - bm_updatedAt m)
             (filter (\<lambda>m. bm_blueprintId m = blueprintId) (blueprintMarkup db)))
          ''Markups loaded successfully'')"

section \<open>Example elements\<close>

text \<open>
  The rectangle a drag from \<open>(sx, sy)\<close> to \<open>(ex, ey)\<close> builds with the default colour and
  stroke width, for the concrete cases below.
\<close>

definition rectangleElement :: "real \<Rightarrow> real \<Rightarrow> real \<Rightarrow> real \<Rightarrow> DrawingElement" where
  "rectangleElement sx sy ex ey =
     \<lparr> el_id = (0, 0), el_type = Rectangle, points = None,
       startX = Some sx, startY = Some sy, endX = Some ex, endY = Some ey, el_text = None,
       color = ''#238636'', el_strokeWidth = 3, timestamp = 0 \<rparr>"

section \<open>The history invariant\<close>

text \<open>
  The invariant of the history: the index points into the stack and the rendered
  elements are the snapshot at the index.
\<close>

definition hist_inv :: "viewer \<Rightarrow> bool" where
  "hist_inv s =
     (0 \<le> historyIndex s \<and> historyIndex s < int (length (history s)) \<and>
      elements s = history s ! nat (historyIndex s))"

text \<open>
  Before the first successful load, commit or clear the viewer has no history: the index
  is -1, the stack and the rendered list are empty.
\<close>

definition unloaded :: "viewer \<Rightarrow> bool" where
  "unloaded s = (historyIndex s = - 1 \<and> history s = [] \<and> elements s = [])"

definition hist_weak :: "viewer \<Rightarrow> bool" where
  "hist_weak s = (unloaded s \<or> hist_inv s)"

text \<open>
  The steps of the history manager, for statements about sequences of them: a commit of
  a drawn element, the confirmation of a typed text, undo and redo.
\<close>

datatype history_op =
    Commit DrawingElement
  | CommitText jsstring int real int
  | UndoOp
  | RedoOp

fun history_step :: "viewer \<Rightarrow> history_op \<Rightarrow> viewer" where
  "history_step s (Commit e) = commit s e"
| "history_step s (CommitText t idNow rnd tsNow) =
     handleAddText idNow rnd tsNow (s\<lparr> textInput := t \<rparr>)"
| "history_step s UndoOp = undo s"
| "history_step s RedoOp = redo s"

section \<open>The history manager\<close>

lemma slice0_take: "- 1 \<le> i \<Longrightarrow> slice0 xs (i + 1) = take (nat (i + 1)) xs"
  by (auto simp: slice0_def Let_def min_def)

lemma hist_inv_weak: "hist_inv s \<Longrightarrow> hist_weak s"
  by (simp add: hist_weak_def)

lemma push_fields:
  assumes "hist_weak s"
    and "history t = slice0 (history s) (historyIndex s + 1) @ [new]"
    and "historyIndex t = int (length (history t)) - 1"
    and "elements t = new"
  shows "hist_inv t"
proof -
  have i: "- 1 \<le> historyIndex s" "historyIndex s < int (length (history s))"
    using assms(1) by (auto simp: hist_weak_def unloaded_def hist_inv_def)
  have len: "length (slice0 (history s) (historyIndex s + 1)) = nat (historyIndex s + 1)"
    using i by (simp add: slice0_take)
  show ?thesis
    using i assms(2-4) by (simp add: hist_inv_def len nth_append)
qed

lemma handlePointerEnd_cases:
  "handlePointerEnd s = s \<or>
   (\<exists>new. history (handlePointerEnd s) = slice0 (history s) (historyIndex s + 1) @ [new] \<and>
      historyIndex (handlePointerEnd s) = int (length (history (handlePointerEnd s))) - 1 \<and>
      elements (handlePointerEnd s) = new)"
  by (cases "currentElement s"; cases "isDrawing s"; simp add: handlePointerEnd_def Let_def)

lemma handlePointerEnd_weak:
  assumes "hist_weak s"
  shows "hist_weak (handlePointerEnd s)"
proof -
  from handlePointerEnd_cases [of s] show ?thesis
  proof
    assume "handlePointerEnd s = s"
    with assms show ?thesis by simp
  next
    assume "\<exists>new. history (handlePointerEnd s) = slice0 (history s) (historyIndex s + 1) @ [new] \<and>
      historyIndex (handlePointerEnd s) = int (length (history (handlePointerEnd s))) - 1 \<and>
      elements (handlePointerEnd s) = new"
    then have "hist_inv (handlePointerEnd s)"
      using push_fields [OF assms] by blast
    then show ?thesis by (rule hist_inv_weak)
  qed
qed

lemma handlePointerEnd_inv:
  assumes "hist_inv s"
  shows "hist_inv (handlePointerEnd s)"
proof -
  from handlePointerEnd_cases [of s] show ?thesis
  proof
    assume "handlePointerEnd s = s"
    with assms show ?thesis by simp
  next
    assume "\<exists>new. history (handlePointerEnd s) = slice0 (history s) (historyIndex s + 1) @ [new] \<and>
      historyIndex (handlePointerEnd s) = int (length (history (handlePointerEnd s))) - 1 \<and>
      elements (handlePointerEnd s) = new"
    then show ?thesis
      using push_fields [OF hist_inv_weak [OF assms]] by blast
  qed
qed

lemma commit_inv: "hist_weak s \<Longrightarrow> hist_inv (commit s e)"
  by (rule push_fields [of s]) (simp_all add: commit_def handlePointerEnd_def Let_def hist_weak_def hist_inv_def unloaded_def)

lemma handleAddText_cases:
  "(trim (textInput s) = [] \<and> handleAddText a b c s = s\<lparr> showTextInput := False \<rparr>) \<or>
   (trim (textInput s) \<noteq> [] \<and>
      (\<exists>new. history (handleAddText a b c s) = slice0 (history s) (historyIndex s + 1) @ [new] \<and>
      historyIndex (handleAddText a b c s) = int (length (history (handleAddText a b c s))) - 1 \<and>
      elements (handleAddText a b c s) = new))"
  by (simp add: handleAddText_def Let_def)

lemma handleAddText_weak:
  assumes "hist_weak s"
  shows "hist_weak (handleAddText a b c s)"
proof (cases "trim (textInput s) = []")
  case True
  then have "handleAddText a b c s = s\<lparr> showTextInput := False \<rparr>"
    by (simp add: handleAddText_def)
  with assms show ?thesis
    by (simp add: hist_weak_def hist_inv_def unloaded_def)
next
  case False
  then have "hist_inv (handleAddText a b c s)"
    using handleAddText_cases [of s a b c] push_fields [OF assms] by blast
  then show ?thesis by (rule hist_inv_weak)
qed

lemma handleAddText_inv:
  assumes "hist_inv s"
  shows "hist_inv (handleAddText a b c s)"
proof (cases "trim (textInput s) = []")
  case True
  then have "handleAddText a b c s = s\<lparr> showTextInput := False \<rparr>"
    by (simp add: handleAddText_def)
  with assms show ?thesis
    by (simp add: hist_inv_def)
next
  case False
  then show ?thesis
    using handleAddText_cases [of s a b c] push_fields [OF hist_inv_weak [OF assms]] by blast
qed

lemma clearAll_inv: "hist_weak s \<Longrightarrow> hist_inv (clearAll s)"
  by (rule push_fields [of s _ "[]"]) (simp_all add: clearAll_def Let_def)

lemma undo_inv: "hist_inv s \<Longrightarrow> hist_inv (undo s)"
  by (auto simp: undo_def hist_inv_def at_index_def)

lemma undo_weak: "hist_weak s \<Longrightarrow> hist_weak (undo s)"
  by (auto simp: hist_weak_def undo_inv) (simp add: undo_def unloaded_def)

lemma redo_inv: "hist_inv s \<Longrightarrow> hist_inv (redo s)"
  by (auto simp: redo_def hist_inv_def at_index_def nat_add_distrib)

lemma redo_weak: "hist_weak s \<Longrightarrow> hist_weak (redo s)"
  by (auto simp: hist_weak_def redo_inv) (simp add: redo_def unloaded_def)

lemma load_weak: "hist_weak s \<Longrightarrow> hist_weak (loadInitialMarkups outcome s)"
  by (cases "(outcome, s)" rule: loadInitialMarkups.cases)
     (auto simp: hist_weak_def hist_inv_def unloaded_def)

lemma load_inv: "hist_inv s \<Longrightarrow> hist_inv (loadInitialMarkups outcome s)"
  by (cases "(outcome, s)" rule: loadInitialMarkups.cases)
     (auto simp: hist_inv_def)

lemma start_fields:
  "history (handlePointerStart cv a b c d e s) = history s \<and>
   historyIndex (handlePointerStart cv a b c d e s) = historyIndex s \<and>
   elements (handlePointerStart cv a b c d e s) = elements s"
  by (simp add: handlePointerStart_def Let_def)

lemma move_fields:
  "history (handlePointerMove cv d e s) = history s \<and>
   historyIndex (handlePointerMove cv d e s) = historyIndex s \<and>
   elements (handlePointerMove cv d e s) = elements s"
  by (simp add: handlePointerMove_def Let_def split: option.splits)

lemma fire_inv:
  assumes "hist_inv s"
  shows "hist_inv (fire s ev)"
proof (cases ev)
  case (Load outcome)
  with assms show ?thesis by (simp add: load_inv)
next
  case (PointerStart cv a b c d e)
  with assms show ?thesis
    using start_fields [of cv a b c d e s] by (simp add: hist_inv_def)
next
  case (PointerMove cv d e)
  with assms show ?thesis
    using move_fields [of cv d e s] by (simp add: hist_inv_def)
next
  case PointerEnd
  with assms show ?thesis by (simp add: handlePointerEnd_inv)
next
  case (SetCurrentTool tool)
  with assms show ?thesis by (simp add: hist_inv_def)
next
  case (SetCurrentColor c)
  with assms show ?thesis by (simp add: hist_inv_def)
next
  case (SetStrokeWidth w)
  with assms show ?thesis by (simp add: hist_inv_def)
next
  case (SetTextInput t)
  with assms show ?thesis by (simp add: hist_inv_def)
next
  case (AddText a b c)
  with assms show ?thesis by (simp add: handleAddText_inv)
next
  case CancelText
  with assms show ?thesis by (simp add: hist_inv_def cancelText_def)
next
  case Undo
  with assms show ?thesis by (simp add: undo_inv)
next
  case Redo
  with assms show ?thesis by (simp add: redo_inv)
next
  case ClearAll
  with assms show ?thesis by (simp add: clearAll_inv hist_inv_weak)
next
  case ZoomIn
  with assms show ?thesis by (simp add: hist_inv_def zoomIn_def)
next
  case ZoomOut
  with assms show ?thesis by (simp add: hist_inv_def zoomOut_def)
next
  case ResetView
  with assms show ?thesis by (simp add: hist_inv_def resetView_def)
qed

lemma fire_weak:
  assumes "hist_weak s"
  shows "hist_weak (fire s ev)"
proof (cases ev)
  case (Load outcome)
  with assms show ?thesis by (simp add: load_weak)
next
  case (PointerStart cv a b c d e)
  with assms show ?thesis
    using start_fields [of cv a b c d e s] by (simp add: hist_weak_def hist_inv_def unloaded_def)
next
  case (PointerMove cv d e)
  with assms show ?thesis
    using move_fields [of cv d e s] by (simp add: hist_weak_def hist_inv_def unloaded_def)
next
  case PointerEnd
  with assms show ?thesis by (simp add: handlePointerEnd_weak)
next
  case (SetCurrentTool tool)
  with assms show ?thesis by (simp add: hist_weak_def hist_inv_def unloaded_def)
next
  case (SetCurrentColor c)
  with assms show ?thesis by (simp add: hist_weak_def hist_inv_def unloaded_def)
next
  case (SetStrokeWidth w)
  with assms show ?thesis by (simp add: hist_weak_def hist_inv_def unloaded_def)
next
  case (SetTextInput t)
  with assms show ?thesis by (simp add: hist_weak_def hist_inv_def unloaded_def)
next
  case (AddText a b c)
  with assms show ?thesis by (simp add: handleAddText_weak)
next
  case CancelText
  with assms show ?thesis by (simp add: hist_weak_def hist_inv_def unloaded_def cancelText_def)
next
  case Undo
  with assms show ?thesis by (simp add: undo_weak)
next
  case Redo
  with assms show ?thesis by (simp add: redo_weak)
next
  case ClearAll
  with assms show ?thesis by (simp add: clearAll_inv hist_inv_weak)
next
  case ZoomIn
  with assms show ?thesis by (simp add: hist_weak_def hist_inv_def unloaded_def zoomIn_def)
next
  case ZoomOut
  with assms show ?thesis by (simp add: hist_weak_def hist_inv_def unloaded_def zoomOut_def)
next
  case ResetView
  with assms show ?thesis by (simp add: hist_weak_def hist_inv_def unloaded_def resetView_def)
qed

lemma run_weak: "hist_weak s \<Longrightarrow> hist_weak (run s evs)"
  unfolding run_def by (induction evs arbitrary: s) (simp_all add: fire_weak)

lemma run_inv: "hist_inv s \<Longrightarrow> hist_inv (run s evs)"
  unfolding run_def by (induction evs arbitrary: s) (simp_all add: fire_inv)

lemma initial_weak: "hist_weak initialViewer"
  by (simp add: hist_weak_def unloaded_def initialViewer_def)

lemma opened_inv: "hist_inv (opened m)"
  by (simp add: opened_def hist_inv_def)


lemma commit_fields:
  assumes "hist_inv s"
  shows "historyIndex (commit s e) = historyIndex s + 1"
    and "history (commit s e) ! 0 = history s ! 0"
proof -
  have i: "0 \<le> historyIndex s" "historyIndex s < int (length (history s))"
    using assms by (auto simp: hist_inv_def)
  have h: "history (commit s e) = take (nat (historyIndex s + 1)) (history s) @ [elements s @ [Element e]]"
    using i by (simp add: commit_def handlePointerEnd_def Let_def slice0_take)
  have idx: "historyIndex (commit s e) = int (length (history (commit s e))) - 1"
    by (simp add: commit_def handlePointerEnd_def Let_def)
  show "historyIndex (commit s e) = historyIndex s + 1"
    using i by (simp add: idx h)
  show "history (commit s e) ! 0 = history s ! 0"
    using i by (simp add: h nth_append)
qed

lemma commits_state:
  "hist_inv s \<Longrightarrow>
   hist_inv (foldl commit s es) \<and>
   historyIndex (foldl commit s es) = historyIndex s + int (length es) \<and>
   history (foldl commit s es) ! 0 = history s ! 0"
proof (induction es arbitrary: s)
  case Nil
  then show ?case by simp
next
  case (Cons e es)
  have inv': "hist_inv (commit s e)"
    using Cons.prems by (simp add: commit_inv hist_inv_weak)
  show ?case
    using Cons.IH [OF inv'] commit_fields [OF Cons.prems, of e] by simp
qed

lemma undo_many:
  "hist_inv s \<Longrightarrow> historyIndex s = int n \<Longrightarrow>
   hist_inv ((undo ^^ n) s) \<and> historyIndex ((undo ^^ n) s) = 0 \<and>
   history ((undo ^^ n) s) = history s"
proof (induction n arbitrary: s)
  case 0
  then show ?case by simp
next
  case (Suc n)
  have a: "hist_inv (undo s)"
    using Suc.prems(1) by (rule undo_inv)
  have b: "historyIndex (undo s) = int n" "history (undo s) = history s"
    using Suc.prems by (auto simp: undo_def split: option.splits)
  show ?case
    using Suc.IH [OF a b(1)] b(2) by (simp add: funpow_swap1)
qed

lemma history_step_inv:
  assumes "hist_inv s"
  shows "hist_inv (history_step s op)"
proof (cases op)
  case (CommitText t idNow rnd tsNow)
  have "hist_inv (s\<lparr> textInput := t \<rparr>)"
    using assms by (simp add: hist_inv_def)
  then show ?thesis
    using CommitText by (simp add: handleAddText_inv)
qed (use assms in \<open>simp_all add: commit_inv hist_inv_weak undo_inv redo_inv\<close>)

lemma history_steps_inv: "hist_inv s \<Longrightarrow> hist_inv (foldl history_step s ops)"
  by (induction ops arbitrary: s) (simp_all add: history_step_inv)

text \<open>
  Claim C1. From the single-entry history of a viewer opened on the snapshot \<open>m\<close>, after
  any sequence of commits, as many undos as there were commits bring the rendered
  elements back to \<open>m\<close>; and after every commit (of a drawn element or of a typed text),
  undo and redo the rendered elements are the snapshot at the history index, which lies
  inside the stack.
\<close>

theorem undo_all_commits_restores_original:
  "elements ((undo ^^ length es) (foldl commit (opened m) es)) = m \<and>
   hist_inv (foldl history_step (opened m) ops)"
proof -
  let ?t = "foldl commit (opened m) es"
  have t: "hist_inv ?t" "historyIndex ?t = int (length es)" "history ?t ! 0 = m"
    using commits_state [OF opened_inv, of m es] by (simp_all add: opened_def)
  let ?u = "(undo ^^ length es) ?t"
  have u: "hist_inv ?u" "historyIndex ?u = 0" "history ?u = history ?t"
    using undo_many [OF t(1) t(2)] by simp_all
  have "elements ?u = m"
    using u t(3) by (simp add: hist_inv_def)
  then show ?thesis
    by (simp add: history_steps_inv opened_inv)
qed

text \<open>
  Claim C2. A commit truncates the stack to the entries up to the index, appends the new
  snapshot and moves the index to the last entry. On an empty blueprint, commit \<open>a\<close>,
  commit \<open>b\<close>, undo, commit \<open>c\<close> leaves exactly the snapshots \<open>[]\<close>, \<open>[a]\<close>, \<open>[a, c]\<close>, and
  redo then changes nothing.
\<close>

theorem commit_truncates_redo_branch:
  "- 1 \<le> historyIndex s \<Longrightarrow>
   history (commit s e) = take (nat (historyIndex s + 1)) (history s) @ [elements s @ [Element e]] \<and>
   historyIndex (commit s e) = int (length (history (commit s e))) - 1 \<and>
   history (commit (undo (commit (commit (opened []) a) b)) c)
     = [[], [Element a], [Element a, Element c]] \<and>
   redo (commit (undo (commit (commit (opened []) a) b)) c)
     = commit (undo (commit (commit (opened []) a) b)) c"
proof -
  assume i: "- 1 \<le> historyIndex s"
  have h: "history (commit s e) = take (nat (historyIndex s + 1)) (history s) @ [elements s @ [Element e]]"
    using i by (simp add: commit_def handlePointerEnd_def Let_def slice0_take)
  have idx: "historyIndex (commit s e) = int (length (history (commit s e))) - 1"
    by (simp add: commit_def handlePointerEnd_def Let_def)
  have sc: "history (commit (undo (commit (commit (opened []) a) b)) c)
      = [[], [Element a], [Element a, Element c]]"
    by (simp add: commit_def handlePointerEnd_def Let_def opened_def slice0_def undo_def
        at_index_def initialViewer_def)
  have rd: "redo (commit (undo (commit (commit (opened []) a) b)) c)
     = commit (undo (commit (commit (opened []) a) b)) c"
    by (simp add: commit_def handlePointerEnd_def Let_def opened_def slice0_def undo_def
        at_index_def initialViewer_def redo_def)
  show ?thesis using h idx sc rd by blast
qed

theorem commit_truncates_redo_branch_witness:
  "- 1 \<le> historyIndex (opened []) \<and>
   history (commit (opened []) (rectangleElement 10 10 50 50))
     = [[], [Element (rectangleElement 10 10 50 50)]] \<and>
   historyIndex (commit (opened []) (rectangleElement 10 10 50 50)) = 1 \<and>
   history (commit (undo (commit (commit (opened []) (rectangleElement 0 0 1 1))
       (rectangleElement 0 0 2 2))) (rectangleElement 0 0 3 3))
     = [[], [Element (rectangleElement 0 0 1 1)],
        [Element (rectangleElement 0 0 1 1), Element (rectangleElement 0 0 3 3)]]"
  using commit_truncates_redo_branch [of "opened []" "rectangleElement 10 10 50 50"
      "rectangleElement 0 0 1 1" "rectangleElement 0 0 2 2" "rectangleElement 0 0 3 3"]
  by (simp add: opened_def initialViewer_def)

text \<open>
  Claim C7. Undo and redo never change the stack, and change nothing but the index and
  the rendered elements. Undo steps the index down and shows the snapshot there only
  when the index is positive; redo steps it up and shows the snapshot there only when
  the index is below the last entry; at the boundaries each leaves the state as it is.
\<close>

theorem undo_redo_leave_history_untouched:
  "history (undo s) = history s \<and> history (redo s) = history s \<and>
   undo s = s\<lparr> historyIndex := historyIndex (undo s), elements := elements (undo s) \<rparr> \<and>
   redo s = s\<lparr> historyIndex := historyIndex (redo s), elements := elements (redo s) \<rparr> \<and>
   (0 < historyIndex s \<longrightarrow> historyIndex (undo s) = historyIndex s - 1) \<and>
   (0 < historyIndex s \<and> historyIndex s \<le> int (length (history s)) \<longrightarrow>
      elements (undo s) = history s ! nat (historyIndex s - 1)) \<and>
   (historyIndex s \<le> 0 \<longrightarrow> undo s = s) \<and>
   (historyIndex s < int (length (history s)) - 1 \<longrightarrow>
      historyIndex (redo s) = historyIndex s + 1) \<and>
   (- 1 \<le> historyIndex s \<and> historyIndex s < int (length (history s)) - 1 \<longrightarrow>
      elements (redo s) = history s ! nat (historyIndex s + 1)) \<and>
   (int (length (history s)) - 1 \<le> historyIndex s \<longrightarrow> redo s = s)"
  by (auto simp: undo_def redo_def at_index_def split: option.splits)

theorem undo_redo_leave_history_untouched_witness:
  "historyIndex (undo (clearAll (opened []))) = 0 \<and>
   elements (undo (clearAll (opened []))) = [] \<and>
   history (undo (clearAll (opened []))) = [[], []] \<and>
   redo (clearAll (opened [])) = clearAll (opened []) \<and>
   undo (opened []) = opened [] \<and>
   historyIndex (redo (undo (clearAll (opened [])))) = 1"
  using undo_redo_leave_history_untouched [of "clearAll (opened [])"]
    undo_redo_leave_history_untouched [of "opened []"]
    undo_redo_leave_history_untouched [of "undo (clearAll (opened []))"]
  by (simp add: opened_def initialViewer_def clearAll_def slice0_def Let_def)

text \<open>
  Claim C3, as stated, fails: the viewer starts with the index -1 and an empty stack, and
  stored markup on which \<^verbatim>\<open>JSON.parse\<close> throws leaves it so. The index is then not
  inside the stack.
\<close>

theorem empty_history_before_first_snapshot:
  "\<not> hist_inv initialViewer \<and> \<not> hist_inv (run initialViewer [Load Throws]) \<and>
   historyIndex (run initialViewer [Load Throws]) = - 1 \<and>
   history (run initialViewer [Load Throws]) = []"
  by (simp add: hist_inv_def run_def initialViewer_def)

text \<open>
  Claim C3, amended. In every reachable state either the viewer has no history yet (index
  -1, empty stack, empty rendered list) or the index lies inside the stack and the
  rendered elements are the snapshot at the index. Every event keeps this, and keeps the
  second alternative once it holds; a load of an array, a commit, a clear and a text
  commit with non-blank text establish the second alternative.
\<close>

theorem history_invariant_once_seeded:
  "hist_weak (run initialViewer evs) \<and>
   (hist_weak s \<longrightarrow> hist_weak (fire s ev)) \<and>
   (hist_inv s \<longrightarrow> hist_inv (fire s ev)) \<and>
   (hist_weak s \<longrightarrow>
      hist_inv (loadInitialMarkups (Returns (JsonArray m)) s) \<and>
      hist_inv (commit s e) \<and> hist_inv (clearAll s) \<and>
      (trim (textInput s) \<noteq> [] \<longrightarrow> hist_inv (handleAddText idNow rnd tsNow s)))"
proof -
  have a: "hist_weak (run initialViewer evs)"
    by (rule run_weak [OF initial_weak])
  have b: "hist_inv (loadInitialMarkups (Returns (JsonArray m)) s)"
    by (simp add: hist_inv_def)
  have c: "hist_inv (handleAddText idNow rnd tsNow s)"
    if "hist_weak s" "trim (textInput s) \<noteq> []"
    using handleAddText_cases [of s idNow rnd tsNow] push_fields [OF that(1)] that(2) by blast
  show ?thesis
    using a b c by (simp add: fire_weak fire_inv commit_inv clearAll_inv)
qed

theorem history_invariant_once_seeded_witness:
  "hist_weak initialViewer \<and> hist_inv (opened []) \<and>
   hist_weak (run initialViewer [Load Throws, Undo, ZoomIn]) \<and>
   hist_weak (fire initialViewer Redo) \<and>
   hist_inv (fire (opened []) Undo) \<and>
   hist_inv (clearAll initialViewer) \<and>
   hist_inv (commit initialViewer (rectangleElement 10 10 50 50))"
proof -
  have w: "hist_weak initialViewer"
    by (simp add: hist_weak_def unloaded_def initialViewer_def)
  have i: "hist_inv (opened [])"
    by (simp add: hist_inv_def opened_def)
  show ?thesis
    using w i
      history_invariant_once_seeded [of "[Load Throws, Undo, ZoomIn]" initialViewer Redo]
      history_invariant_once_seeded [of "[]" "opened []" Undo]
      history_invariant_once_seeded [of "[]" initialViewer Undo "[]" "rectangleElement 10 10 50 50"]
    by simp
qed

text \<open>
  Claim C5. Stored markup that is not a well-formed element array should be logged and
  give the empty rendered list, without a blocking error. The code does this when
  \<^verbatim>\<open>JSON.parse\<close> throws in a freshly opened viewer, and misses the other cases. For the
  stored markup \<^verbatim>\<open>[null]\<close> the effect stores the entry and logs nothing, and
  \<^verbatim>\<open>drawElements\<close> throws a \<^verbatim>\<open>TypeError\<close> once the background is drawn. For the stored
  markup \<^verbatim>\<open>{}\<close> nothing is logged. A viewer that already shows a rectangle still shows
  it after markup on which \<^verbatim>\<open>JSON.parse\<close> throws.
\<close>

theorem malformed_markup_is_not_rejected:
  "elements (loadInitialMarkups (Returns (JsonArray [NullEntry])) initialViewer) = [NullEntry] \<and>
   errorLog (loadInitialMarkups (Returns (JsonArray [NullEntry])) initialViewer) = [] \<and>
   drawElements (Some (800, 600))
       (loadInitialMarkups (Returns (JsonArray [NullEntry])) initialViewer)
     = ([ClearRect 0 0 800 600, Save, Scale 1 1, Translate 0 0, DrawImage 0 0 800 600],
        Some TypeError) \<and>
   elements (loadInitialMarkups (Returns (JsonObject [])) initialViewer) = [] \<and>
   errorLog (loadInitialMarkups (Returns (JsonObject [])) initialViewer) = [] \<and>
   elements (loadInitialMarkups Throws (opened [Element (rectangleElement 10 10 50 50)]))
     = [Element (rectangleElement 10 10 50 50)] \<and>
   elements (loadInitialMarkups Throws initialViewer) = [] \<and>
   errorLog (loadInitialMarkups Throws initialViewer) = [''Error parsing initial markups:'']"
  by (simp add: initialViewer_def opened_def drawElements_def viewportOps_def)

lemma fire_zoom:
  "1 / 10 \<le> zoom s \<Longrightarrow> zoom s \<le> 3 \<Longrightarrow> 1 / 10 \<le> zoom (fire s ev) \<and> zoom (fire s ev) \<le> 3"
proof (cases ev)
  case (Load outcome)
  assume "1 / 10 \<le> zoom s" "zoom s \<le> 3"
  with Load show ?thesis
    by (cases "(outcome, s)" rule: loadInitialMarkups.cases) simp_all
qed (simp_all add: handlePointerStart_def handlePointerMove_def handlePointerEnd_def
      handleAddText_def cancelText_def undo_def redo_def clearAll_def zoomIn_def zoomOut_def
      resetView_def Let_def split: option.splits)

lemma run_zoom:
  "1 / 10 \<le> zoom s \<Longrightarrow> zoom s \<le> 3 \<Longrightarrow> 1 / 10 \<le> zoom (run s evs) \<and> zoom (run s evs) \<le> 3"
  unfolding run_def
proof (induction evs arbitrary: s)
  case Nil
  then show ?case by simp
next
  case (Cons ev evs)
  show ?case
    using Cons.IH [of "fire s ev"] fire_zoom [OF Cons.prems, of ev] by simp
qed

text \<open>
  Claim C8. Whatever events the viewer receives, the zoom stays between 0.1 and 3. Zoom
  in adds 0.1 and stops at 3, zoom out subtracts 0.1 and stops at 0.1, neither moves
  the pan, and reset view sets the zoom to 1 and the pan to the origin.
\<close>

theorem zoom_stays_in_range:
  "1 / 10 \<le> zoom (run initialViewer evs) \<and> zoom (run initialViewer evs) \<le> 3 \<and>
   zoom (zoomIn s) = (if zoom s + 1 / 10 \<le> 3 then zoom s + 1 / 10 else 3) \<and>
   zoom (zoomOut s) = (if 1 / 10 \<le> zoom s - 1 / 10 then zoom s - 1 / 10 else 1 / 10) \<and>
   zoom (resetView s) = 1 \<and> pan (resetView s) = \<lparr> px = 0, py = 0 \<rparr> \<and>
   pan (zoomIn s) = pan s \<and> pan (zoomOut s) = pan s"
proof -
  have "1 / 10 \<le> zoom (run initialViewer evs) \<and> zoom (run initialViewer evs) \<le> 3"
    by (rule run_zoom) (simp_all add: initialViewer_def)
  then show ?thesis
    by (simp add: zoomIn_def zoomOut_def resetView_def min_def max_def)
qed

lemma viewportTransform_eq:
  "viewportTransform s =
     \<lparr> m_sx = zoom s, m_sy = zoom s, m_tx = zoom s * px (pan s), m_ty = zoom s * py (pan s) \<rparr>"
  by (simp add: viewportTransform_def viewportOps_def ctm_identity_def)

text \<open>
  Claim C4. For a zoom between 0.1 and 3 and any pan, the point \<^verbatim>\<open>getCanvasPoint\<close>
  computes from the client position at which the renderer paints a logical point is that
  logical point. The renderer scales by the zoom and then translates by the pan, which
  moves the picture by pan times zoom; \<^verbatim>\<open>getCanvasPoint\<close> subtracts the origin of the
  canvas and pan times zoom and divides by the zoom. Numbers are real numbers here, so
  the round trip is exact.
\<close>

theorem screenToLogical_inverts_viewport_transform:
  fixes p :: Point
  assumes "1 / 10 \<le> zoom s" and "zoom s \<le> 3"
  shows "getCanvasPoint (Some rect) s (fst (logicalToScreen rect s p)) (snd (logicalToScreen rect s p)) = p \<and>
    logicalToScreen rect s p =
      (fst rect + (zoom s * px p + px (pan s) * zoom s),
       snd rect + (zoom s * py p + py (pan s) * zoom s)) \<and>
    px (getCanvasPoint (Some (originX, originY)) s deviceX deviceY)
      = (deviceX - originX - px (pan s) * zoom s) / zoom s \<and>
    py (getCanvasPoint (Some (originX, originY)) s deviceX deviceY)
      = (deviceY - originY - py (pan s) * zoom s) / zoom s"
proof -
  have z: "zoom s \<noteq> 0"
    using assms(1) by auto
  have l: "logicalToScreen rect s p =
      (fst rect + (zoom s * px p + px (pan s) * zoom s),
       snd rect + (zoom s * py p + py (pan s) * zoom s))"
    by (simp add: logicalToScreen_def viewportTransform_eq Let_def mult.commute)
  have c: "getCanvasPoint (Some rect) s cx cy =
      \<lparr> px = (cx - fst rect - px (pan s) * zoom s) / zoom s,
        py = (cy - snd rect - py (pan s) * zoom s) / zoom s \<rparr>" for cx cy
    by (simp add: getCanvasPoint_def case_prod_unfold)
  have g: "getCanvasPoint (Some rect) s (fst (logicalToScreen rect s p)) (snd (logicalToScreen rect s p)) = p"
    using z by (simp add: l c)
  show ?thesis
    using l g by (simp add: getCanvasPoint_def)
qed

theorem screenToLogical_inverts_viewport_transform_witness:
  "(1 / 10 :: real) \<le> zoom (zoomIn initialViewer) \<and> zoom (zoomIn initialViewer) \<le> 3 \<and>
   logicalToScreen (8, 100) (zoomIn initialViewer) \<lparr> px = 10, py = 20 \<rparr> = (19, 122) \<and>
   getCanvasPoint (Some (8, 100)) (zoomIn initialViewer) 19 122 = \<lparr> px = 10, py = 20 \<rparr>"
proof -
  have zv: "zoom (zoomIn initialViewer) = 11 / 10" "pan (zoomIn initialViewer) = \<lparr> px = 0, py = 0 \<rparr>"
    by (simp_all add: zoomIn_def initialViewer_def)
  have h: "(1 / 10 :: real) \<le> zoom (zoomIn initialViewer)" "zoom (zoomIn initialViewer) \<le> 3"
    by (simp_all add: zv)
  note th = screenToLogical_inverts_viewport_transform [OF h, of "(8, 100)" "\<lparr> px = 10, py = 20 \<rparr>" 0 0 0 0]
  have a: "logicalToScreen (8, 100) (zoomIn initialViewer) \<lparr> px = 10, py = 20 \<rparr> = (19, 122)"
    using th by (simp add: zv)
  have b: "getCanvasPoint (Some (8, 100)) (zoomIn initialViewer) 19 122 = \<lparr> px = 10, py = 20 \<rparr>"
    using th unfolding a by simp
  show ?thesis
    using h a b by simp
qed

text \<open>
  Claim C9. Swapping the start and the end corner of a rectangle element does not change
  what is rendered: the same style calls and the same bounding box. The witness is the
  rectangle from (50, 50) to (10, 10) against the one from (10, 10) to (50, 50).
\<close>

theorem rectangle_direction_independent:
  "el_type e = Rectangle \<Longrightarrow> rendered (swapCorners e) = rendered e"
  by (cases "startX e"; cases "startY e"; cases "endX e"; cases "endY e")
     (simp_all add: rendered_def drawElement_def swapCorners_def strokeRect_bbox_def Let_def
        min.commute max.commute)

theorem rectangle_direction_independent_witness:
  "el_type (rectangleElement 10 10 50 50) = Rectangle \<and>
   rendered (rectangleElement 50 50 10 10) = rendered (rectangleElement 10 10 50 50) \<and>
   rendered (rectangleElement 50 50 10 10) =
     [Other (SetStrokeStyle ''#238636''), Other (SetLineWidth 3), Other (SetLineCap ''round''),
      Other (SetLineJoin ''round''), Box (10, 10, 50, 50)]"
proof -
  have s: "swapCorners (rectangleElement 10 10 50 50) = rectangleElement 50 50 10 10"
    by (simp add: swapCorners_def rectangleElement_def)
  have r: "rendered (rectangleElement 10 10 50 50) =
     [Other (SetStrokeStyle ''#238636''), Other (SetLineWidth 3), Other (SetLineCap ''round''),
      Other (SetLineJoin ''round''), Box (10, 10, 50, 50)]"
    by (simp add: rendered_def drawElement_def rectangleElement_def strokeRect_bbox_def)
  have t: "el_type (rectangleElement 10 10 50 50) = Rectangle"
    by (simp add: rectangleElement_def)
  show ?thesis
    using rectangle_direction_independent [OF t] s r t by simp
qed

lemma trim_empty_iff: "trim t = [] \<longleftrightarrow> (\<forall>c \<in> set t. isWhiteSpace c)"
proof
  assume e: "trim t = []"
  have all: "\<forall>x \<in> set (dropWhile isWhiteSpace t). isWhiteSpace x"
    using e by (simp add: trim_def)
  have "dropWhile isWhiteSpace t = []"
  proof (cases "dropWhile isWhiteSpace t")
    case Nil
    then show ?thesis .
  next
    case (Cons c cs)
    then have "\<not> isWhiteSpace c"
      using hd_dropWhile [of isWhiteSpace t] by simp
    with all Cons show ?thesis by simp
  qed
  then show "\<forall>c \<in> set t. isWhiteSpace c"
    by simp
next
  assume "\<forall>c \<in> set t. isWhiteSpace c"
  then show "trim t = []"
    by (auto simp: trim_def dest: set_dropWhileD)
qed

text \<open>
  Claim C10. Confirming a text input that is empty or holds white space only leaves the
  elements, the history and the index as they are. Confirming a text input with a
  character that is not white space appends one text element with the text as typed,
  at the captured position, pushes the new list as the one new snapshot after the
  entries up to the index, and moves the index to the last entry.
\<close>

theorem handleAddText_blank_or_commit:
  "((\<forall>c \<in> set (textInput s). isWhiteSpace c) \<longrightarrow>
      elements (handleAddText idNow rnd tsNow s) = elements s \<and>
      history (handleAddText idNow rnd tsNow s) = history s \<and>
      historyIndex (handleAddText idNow rnd tsNow s) = historyIndex s) \<and>
   ((\<exists>c \<in> set (textInput s). \<not> isWhiteSpace c) \<longrightarrow>
      (\<exists>label. elements (handleAddText idNow rnd tsNow s) = elements s @ [Element label] \<and>
         el_type label = Text \<and> el_text label = Some (textInput s) \<and>
         startX label = Some (px (textPosition s)) \<and> startY label = Some (py (textPosition s))) \<and>
      history (handleAddText idNow rnd tsNow s)
        = slice0 (history s) (historyIndex s + 1) @ [elements (handleAddText idNow rnd tsNow s)] \<and>
      historyIndex (handleAddText idNow rnd tsNow s)
        = int (length (history (handleAddText idNow rnd tsNow s))) - 1 \<and>
      (- 1 \<le> historyIndex s \<and> historyIndex s < int (length (history s)) \<longrightarrow>
         length (history (handleAddText idNow rnd tsNow s)) = nat (historyIndex s + 1) + 1 \<and>
         take (nat (historyIndex s + 1)) (history (handleAddText idNow rnd tsNow s))
           = take (nat (historyIndex s + 1)) (history s)))"
proof (cases "trim (textInput s) = []")
  case True
  then have "\<forall>c \<in> set (textInput s). isWhiteSpace c"
    by (simp add: trim_empty_iff)
  then show ?thesis
    using True by (auto simp: handleAddText_def)
next
  case False
  then have ne: "\<exists>c \<in> set (textInput s). \<not> isWhiteSpace c"
    by (simp add: trim_empty_iff)
  have len: "length (slice0 (history s) (historyIndex s + 1)) = nat (historyIndex s + 1)"
    if "- 1 \<le> historyIndex s" "historyIndex s < int (length (history s))"
    using that by (simp add: slice0_take)
  have tk: "slice0 (history s) (historyIndex s + 1) = take (nat (historyIndex s + 1)) (history s)"
    if "- 1 \<le> historyIndex s"
    using that by (rule slice0_take)
  show ?thesis
    using False ne len tk by (auto simp: handleAddText_def Let_def)
qed

theorem handleAddText_blank_or_commit_witness:
  "isWhiteSpace 0x20 \<and> isWhiteSpace 0x09 \<and> \<not> isWhiteSpace 0x41 \<and>
   elements (handleAddText 5 0 5 ((opened [])\<lparr> textInput := [0x20, 0x09] \<rparr>)) = [] \<and>
   history (handleAddText 5 0 5 ((opened [])\<lparr> textInput := [0x20, 0x09] \<rparr>)) = [[]] \<and>
   historyIndex (handleAddText 5 0 5 ((opened [])\<lparr> textInput := [0x20, 0x09] \<rparr>)) = 0 \<and>
   (\<exists>label. elements (handleAddText 5 0 5 ((opened [])\<lparr> textInput := [0x20, 0x41, 0x20] \<rparr>)) = [Element label] \<and>
      el_text label = Some [0x20, 0x41, 0x20]) \<and>
   length (history (handleAddText 5 0 5 ((opened [])\<lparr> textInput := [0x20, 0x41, 0x20] \<rparr>))) = 2 \<and>
   historyIndex (handleAddText 5 0 5 ((opened [])\<lparr> textInput := [0x20, 0x41, 0x20] \<rparr>)) = 1"
proof -
  have w: "isWhiteSpace 0x20" "isWhiteSpace 0x09" "\<not> isWhiteSpace 0x41"
    by (simp_all add: isWhiteSpace_def)
  have o: "elements (opened []) = []" "history (opened []) = [[]]" "historyIndex (opened []) = 0"
    by (simp_all add: opened_def)
  note blank = handleAddText_blank_or_commit [of "(opened [])\<lparr> textInput := [0x20, 0x09] \<rparr>" 5 0 5]
  note label = handleAddText_blank_or_commit [of "(opened [])\<lparr> textInput := [0x20, 0x41, 0x20] \<rparr>" 5 0 5]
  have b: "elements (handleAddText 5 0 5 ((opened [])\<lparr> textInput := [0x20, 0x09] \<rparr>)) = []"
    "history (handleAddText 5 0 5 ((opened [])\<lparr> textInput := [0x20, 0x09] \<rparr>)) = [[]]"
    "historyIndex (handleAddText 5 0 5 ((opened [])\<lparr> textInput := [0x20, 0x09] \<rparr>)) = 0"
    using blank w o by simp_all
  have l: "(\<exists>label. elements (handleAddText 5 0 5 ((opened [])\<lparr> textInput := [0x20, 0x41, 0x20] \<rparr>)) = [Element label] \<and>
      el_text label = Some [0x20, 0x41, 0x20])"
    "length (history (handleAddText 5 0 5 ((opened [])\<lparr> textInput := [0x20, 0x41, 0x20] \<rparr>))) = 2"
    "historyIndex (handleAddText 5 0 5 ((opened [])\<lparr> textInput := [0x20, 0x41, 0x20] \<rparr>)) = 1"
    using label w o by auto
  show ?thesis
    using w b l by blast
qed

text \<open>
  Claim C6, as stated, fails: the route looks the blueprint up before it validates the
  body, so a save with an empty name for a blueprint that does not exist is answered
  with 404, not with the validation error.
\<close>

theorem empty_name_on_missing_blueprint_is_not_found:
  "fst (POST ''m1'' 0 \<lparr> blueprint = [], blueprintMarkup = [] \<rparr> ''blueprint-1''
      \<lparr> req_name = StringVal [], req_markupData = StringVal ''[]'', req_description = Undefined,
        req_isShared = Undefined, req_userId = Undefined \<rparr>)
   = apiError (Message ''Blueprint not found'') 404"
  by (simp add: POST_def)

lemma empty_name_rejected:
  "req_name body = StringVal [] \<Longrightarrow>
   \<exists>issues. validateRequest body MarkupSaveSchema = Inl issues \<and>
     ''Markup name is required'' \<in> set issues"
  by (simp add: validateRequest_def MarkupSaveSchema_def z_string_min1_def Let_def
      case_prod_unfold)

text \<open>
  Claim C6, amended. A save with an empty name never changes the store, so the list of
  saves of the blueprint is the same afterwards. When the blueprint exists the answer is
  the validation error with status 400 and the message of the name; when it does not
  exist the answer is 404.
\<close>

theorem empty_name_creates_no_markup_save:
  assumes "req_name body = StringVal []"
  shows "snd (POST newId now db blueprintId body) = db \<and>
    GET (snd (POST newId now db blueprintId body)) blueprintId = GET db blueprintId \<and>
    (blueprintId \<noteq> [] \<and> find (\<lambda>b. bp_id b = blueprintId) (blueprint db) \<noteq> None \<longrightarrow>
       (\<exists>issues. fst (POST newId now db blueprintId body) = apiError (ValidationError issues) 400 \<and>
          ''Markup name is required'' \<in> set issues)) \<and>
    (blueprintId \<noteq> [] \<and> find (\<lambda>b. bp_id b = blueprintId) (blueprint db) = None \<longrightarrow>
       fst (POST newId now db blueprintId body) = apiError (Message ''Blueprint not found'') 404)"
proof -
  obtain issues where i: "validateRequest body MarkupSaveSchema = Inl issues"
    "''Markup name is required'' \<in> set issues"
    using empty_name_rejected [OF assms] by blast
  have d: "snd (POST newId now db blueprintId body) = db"
    by (simp add: POST_def i split: option.splits)
  show ?thesis
    using d i by (auto simp: POST_def split: option.splits)
qed

theorem empty_name_creates_no_markup_save_witness:
  "req_name \<lparr> req_name = StringVal [], req_markupData = StringVal ''[]'',
       req_description = Undefined, req_isShared = Undefined, req_userId = Undefined \<rparr>
     = StringVal [] \<and>
   POST ''m1'' 0 \<lparr> blueprint = [\<lparr> bp_id = ''blueprint-1'', bp_markups = ''[]'' \<rparr>],
       blueprintMarkup = [] \<rparr> ''blueprint-1''
      \<lparr> req_name = StringVal [], req_markupData = StringVal ''[]'', req_description = Undefined,
        req_isShared = Undefined, req_userId = Undefined \<rparr>
   = (apiError (ValidationError [''Markup name is required'']) 400,
      \<lparr> blueprint = [\<lparr> bp_id = ''blueprint-1'', bp_markups = ''[]'' \<rparr>], blueprintMarkup = [] \<rparr>)"
  using empty_name_creates_no_markup_save [of
      "\<lparr> req_name = StringVal [], req_markupData = StringVal ''[]'',
         req_description = Undefined, req_isShared = Undefined, req_userId = Undefined \<rparr>"
      "''m1''" 0
      "\<lparr> blueprint = [\<lparr> bp_id = ''blueprint-1'', bp_markups = ''[]'' \<rparr>], blueprintMarkup = [] \<rparr>"
      "''blueprint-1''"]
  by (simp add: POST_def validateRequest_def MarkupSaveSchema_def z_string_min1_def
      z_string_optional_def z_boolean_default_false_def)

end
